theory Spec2Isabelle
  imports Complex_Main
begin

section \<open>Data Sweeper Pro (app.py): tables\<close>

text \<open>
  The program of \<^verbatim>\<open>src/app.py\<close> drives a data-frame library from form widgets.
  A data frame is modelled row by row: the ordered columns (name and dtype) and the rows,
  each with its index label and one cell per column. The numbers of a frame are the
  values of a linearly ordered type \<open>'f\<close>, which stands for the 64-bit integers and floats
  of the library, the infinities included. A missing value is the cell \<open>NaN\<close>, a time
  stamp is its number of nanoseconds.
\<close>

datatype dtype = Int64 | Float64 | Bool | Object | Datetime64

datatype 'f cell = Num 'f | Flag bool | Str string | Stamp int | NaN

record 'f table =
  columns :: "(string \<times> dtype) list"
  rows :: "(nat \<times> 'f cell list) list"

text \<open>
  The invariant of a data frame whose column labels are unique, as the library's readers
  produce it: every row has one cell per column.
\<close>

definition wf_table :: "'f table \<Rightarrow> bool" where
  "wf_table T \<longleftrightarrow>
     distinct (map fst (columns T)) \<and>
     list_all (\<lambda>r. length (snd r) = length (columns T)) (rows T)"

text \<open>
  The exceptions the code can raise are failed look-ups by label (\<^verbatim>\<open>KeyError\<close>, a
  \<^verbatim>\<open>LookupError\<close> of Python); the value is the label that was not found.
\<close>

datatype py_error = LookupError string

subsection \<open>\<^verbatim>\<open>df.drop_duplicates()\<close>\<close>

text \<open>
  \<^verbatim>\<open>DataFrame.duplicated(keep='first')\<close> marks a row whose cells all equal those of a row
  seen before (missing values compare equal to each other here); the index label takes
  no part. \<^verbatim>\<open>drop_duplicates\<close> keeps the rows that are not marked, labels included.
\<close>

fun duplicated :: "'f cell list list \<Rightarrow> 'f cell list list \<Rightarrow> bool list" where
  "duplicated seen [] = []"
| "duplicated seen (r # rs) = (r \<in> set seen) # duplicated (r # seen) rs"

text \<open>Boolean indexing \<^verbatim>\<open>df[mask]\<close>: the rows whose mask entry is true, in order.\<close>

definition boolean_mask :: "'a list \<Rightarrow> bool list \<Rightarrow> 'a list" where
  "boolean_mask xs bs = map fst (filter snd (zip xs bs))"

definition drop_duplicates :: "'f table \<Rightarrow> 'f table" where
  "drop_duplicates T =
     T\<lparr>rows := boolean_mask (rows T) (map Not (duplicated [] (map snd (rows T))))\<rparr>"

subsection \<open>Columns by label\<close>

text \<open>
  \<^verbatim>\<open>df.columns.get_loc(c)\<close>: the position of the first column labelled \<open>c\<close>
  (the number of columns when there is none). \<^verbatim>\<open>df[c]\<close> is the column at that position,
  and raises when the label is absent.
\<close>

definition get_loc :: "'f table \<Rightarrow> string \<Rightarrow> nat" where
  "get_loc T c = length (takeWhile (\<lambda>p. fst p \<noteq> c) (columns T))"

definition series :: "'f table \<Rightarrow> string \<Rightarrow> 'f cell list" where
  "series T c = map (\<lambda>r. snd r ! get_loc T c) (rows T)"

definition getitem :: "'f table \<Rightarrow> string \<Rightarrow> py_error + 'f cell list" where
  "getitem T c = (if c \<in> set (map fst (columns T)) then Inr (series T c) else Inl (LookupError c))"

definition get_dtype :: "'f table \<Rightarrow> string \<Rightarrow> py_error + dtype" where
  "get_dtype T c =
     (if c \<in> set (map fst (columns T)) then Inr (snd (columns T ! get_loc T c))
      else Inl (LookupError c))"

text \<open>Writing a column back into the frame, as a method with \<^verbatim>\<open>inplace=True\<close> does.\<close>

definition set_series :: "'f table \<Rightarrow> string \<Rightarrow> 'f cell list \<Rightarrow> 'f table" where
  "set_series T c vs =
     T\<lparr>rows := map (\<lambda>p. (fst (fst p), (snd (fst p))[get_loc T c := snd p])) (zip (rows T) vs)\<rparr>"

text \<open>
  \<^verbatim>\<open>df.select_dtypes(include='number').columns\<close>: the labels of the integer and float
  columns (a boolean column is not a number here).
\<close>

definition is_number :: "dtype \<Rightarrow> bool" where
  "is_number d \<longleftrightarrow> d = Int64 \<or> d = Float64"

definition select_dtypes_number :: "'f table \<Rightarrow> string list" where
  "select_dtypes_number T = map fst (filter (\<lambda>p. is_number (snd p)) (columns T))"

text \<open>\<^verbatim>\<open>pd.api.types.is_numeric_dtype\<close>: integer, float and boolean dtypes.\<close>

definition is_numeric_dtype :: "dtype \<Rightarrow> bool" where
  "is_numeric_dtype d \<longleftrightarrow> d = Int64 \<or> d = Float64 \<or> d = Bool"

subsection \<open>Statistics of a column\<close>

text \<open>The numbers of a column, missing values skipped (\<^verbatim>\<open>skipna\<close>, \<^verbatim>\<open>dropna\<close>).\<close>

fun numbers :: "'f cell list \<Rightarrow> 'f list" where
  "numbers [] = []"
| "numbers (Num q # cs) = q # numbers cs"
| "numbers (c # cs) = numbers cs"

text \<open>
  What the source leaves to the data-frame library it runs on. Before version 3 of the
  library a column selected from a frame is a view of the frame; from version 3 on it
  is a copy (copy-on-write), and a method called on it with \<^verbatim>\<open>inplace=True\<close> never
  reaches the frame. \<^verbatim>\<open>Series.mean()\<close> and \<^verbatim>\<open>Series.median()\<close> compute in 64-bit floats:
  they round, overflow to an infinity, and are missing when the column has no number.
  They are taken as they are, as functions from the column to the cell they return.
\<close>

record 'f library =
  copy_on_write :: bool
  mean :: "'f cell list \<Rightarrow> 'f cell"
  median :: "'f cell list \<Rightarrow> 'f cell"

text \<open>
  \<^verbatim>\<open>Series.mode()\<close>: count each value, keep the values whose count is the largest, and
  return them sorted in ascending order (no arithmetic is involved). \<^verbatim>\<open>mode()[0]\<close> takes the entry labelled 0 of
  that result, and raises when the result is empty.
\<close>

definition value_counts :: "'f list \<Rightarrow> ('f \<times> nat) list" where
  "value_counts xs = map (\<lambda>x. (x, count_list xs x)) (remdups xs)"

definition mode :: "'f::linorder cell list \<Rightarrow> 'f list" where
  "mode cs =
     (let counts = value_counts (numbers cs); max_count = fold max (map snd counts) 0
      in sort (map fst (filter (\<lambda>p. snd p = max_count) counts)))"

definition getitem0 :: "'f list \<Rightarrow> py_error + 'f" where
  "getitem0 ms = (case ms of [] \<Rightarrow> Inl (LookupError ''0'') | m # _ \<Rightarrow> Inr m)"

subsection \<open>\<^verbatim>\<open>handle_data_cleaning\<close>\<close>

datatype 'f element = Success string | Warning string | Error string | Write string
  | BarChart "'f table" | LineChart "'f table" | ScatterChart "'f table" | Pyplot "'f cell list"

record 'f app =
  session_state :: "string \<rightharpoonup> 'f table option"
  page :: "'f element list"

datatype strategy = NoStrategy | Mean | Median | Mode | DropRows

definition fillna :: "'f cell \<Rightarrow> 'f cell list \<Rightarrow> 'f cell list" where
  "fillna v cs = map (\<lambda>c. if c = NaN then v else c) cs"

text \<open>
  \<^verbatim>\<open>df[col].fillna(v, inplace=True)\<close>: without copy-on-write the column selected is a
  view, and the column of the frame itself is filled; with copy-on-write the fill goes to
  a copy that is dropped, and the frame stays as it is. Filling with a missing value
  changes nothing.
\<close>

definition fillna_inplace :: "'f library \<Rightarrow> 'f table \<Rightarrow> string \<Rightarrow> 'f cell \<Rightarrow> 'f table" where
  "fillna_inplace lib T c v =
     (if copy_on_write lib then T else set_series T c (fillna v (series T c)))"

text \<open>The body of the loop over the number columns (lines 73 to 78).\<close>

fun impute_col ::
  "'f::linorder library \<Rightarrow> strategy \<Rightarrow> string \<Rightarrow> 'f table \<Rightarrow> py_error + 'f table" where
  "impute_col lib Mean c T = Inr (fillna_inplace lib T c (mean lib (series T c)))"
| "impute_col lib Median c T = Inr (fillna_inplace lib T c (median lib (series T c)))"
| "impute_col lib Mode c T =
     (case getitem0 (mode (series T c)) of
        Inl e \<Rightarrow> Inl e
      | Inr m \<Rightarrow> Inr (fillna_inplace lib T c (Num m)))"
| "impute_col lib s c T = Inr T"

fun impute_cols ::
  "'f::linorder library \<Rightarrow> strategy \<Rightarrow> string list \<Rightarrow> 'f table \<Rightarrow> py_error + 'f table" where
  "impute_cols lib s [] T = Inr T"
| "impute_cols lib s (c # cs) T =
     (case impute_col lib s c T of Inl e \<Rightarrow> Inl e | Inr T' \<Rightarrow> impute_cols lib s cs T')"

text \<open>\<^verbatim>\<open>df.dropna(subset=cols)\<close>: the rows with no missing value in the columns \<open>cols\<close>.\<close>

definition dropna :: "'f table \<Rightarrow> string list \<Rightarrow> 'f table" where
  "dropna T cs = T\<lparr>rows := filter (\<lambda>r. list_all (\<lambda>c. snd r ! get_loc T c \<noteq> NaN) cs) (rows T)\<rparr>"

text \<open>
  The first column of the expander (lines 55 to 58): \<open>clicked\<close> is what the button
  returns. The key of the session state is \<^verbatim>\<open>df_\<close> followed by \<open>key_suffix\<close>.
\<close>

definition remove_duplicates_block ::
  "bool \<Rightarrow> string \<Rightarrow> 'f table \<times> 'f app \<Rightarrow> 'f table \<times> 'f app" where
  "remove_duplicates_block clicked key_suffix s =
     (if clicked then
        (let df = drop_duplicates (fst s) in
         (df, (snd s)\<lparr>session_state := (session_state (snd s))(''df_'' @ key_suffix \<mapsto> Some df),
                     page := page (snd s) @ [Success ''Duplicates removed!'']\<rparr>))
      else s)"

text \<open>
  The second column (lines 61 to 81): \<open>missing_strategy\<close> is what the select box returns.
  An exception raised in the loop leaves the function at once.
\<close>

definition missing_values_block ::
  "'f::linorder library \<Rightarrow> strategy \<Rightarrow> string \<Rightarrow> 'f table \<times> 'f app \<Rightarrow>
   py_error + 'f table \<times> 'f app" where
  "missing_values_block lib missing_strategy key_suffix s =
     (if missing_strategy \<noteq> NoStrategy then
        (let numeric_cols = select_dtypes_number (fst s) in
         if numeric_cols = [] then
           Inr (fst s, (snd s)\<lparr>page := page (snd s) @ [Warning ''No numeric columns to fill!'']\<rparr>)
         else
           (case impute_cols lib missing_strategy numeric_cols (fst s) of
              Inl e \<Rightarrow> Inl e
            | Inr df \<Rightarrow>
                (let df' = (if missing_strategy = DropRows then dropna df numeric_cols else df)
                 in Inr (df', (snd s)\<lparr>session_state :=
                                (session_state (snd s))(''df_'' @ key_suffix \<mapsto> Some df')\<rparr>))))
      else Inr s)"

definition handle_data_cleaning ::
  "'f::linorder library \<Rightarrow> 'f table \<Rightarrow> string \<Rightarrow> bool \<Rightarrow> strategy \<Rightarrow> 'f app \<Rightarrow>
   py_error + 'f table \<times> 'f app" where
  "handle_data_cleaning lib df key_suffix clicked missing_strategy st =
     missing_values_block lib missing_strategy key_suffix
       (remove_duplicates_block clicked key_suffix (df, st))"

subsection \<open>\<^verbatim>\<open>process_file\<close>\<close>

record uploaded_file =
  name :: string
  data :: "nat list"

text \<open>\<^verbatim>\<open>s.endswith(suffix)\<close>, on characters and with their case.\<close>

definition endswith :: "string \<Rightarrow> string \<Rightarrow> bool" where
  "endswith s suffix \<longleftrightarrow>
     length suffix \<le> length s \<and> drop (length s - length suffix) s = suffix"

text \<open>
  The two readers belong to the data-frame library and are parameters here: a reader
  returns a frame, or raises an exception \<open>e\<close>, given as the text of \<^verbatim>\<open>str(e)\<close>. The
  second argument of the spreadsheet reader is the sheet; \<^verbatim>\<open>pd.read_excel(file)\<close> reads
  sheet 0, its default. The result is the value returned (\<open>None\<close> for Python's
  \<^verbatim>\<open>None\<close>) and what was written to the page.
\<close>

definition process_file ::
  "(uploaded_file \<Rightarrow> string + 'f table) \<Rightarrow> (uploaded_file \<Rightarrow> nat \<Rightarrow> string + 'f table) \<Rightarrow>
   uploaded_file \<Rightarrow> 'f table option \<times> 'f element list" where
  "process_file read_csv read_excel file =
     (if endswith (name file) ''.csv'' then
        (case read_csv file of
           Inr df \<Rightarrow> (Some df, [])
         | Inl e \<Rightarrow> (None, [Error (''Error processing '' @ name file @ '': '' @ e)]))
      else if endswith (name file) ''.xlsx'' then
        (case read_excel file 0 of
           Inr df \<Rightarrow> (Some df, [])
         | Inl e \<Rightarrow> (None, [Error (''Error processing '' @ name file @ '': '' @ e)]))
      else (None, [Error (''Unsupported file type: '' @ name file)]))"

subsection \<open>Column selection, charts and the download of \<^verbatim>\<open>main\<close>\<close>

text \<open>
  \<^verbatim>\<open>df[selected_cols]\<close> (line 129): the columns with the labels given, in the order given;
  a label that the frame does not have raises.
\<close>

definition project :: "'f table \<Rightarrow> string list \<Rightarrow> py_error + 'f table" where
  "project T selected_cols =
     (case filter (\<lambda>c. c \<notin> set (map fst (columns T))) selected_cols of
        c # _ \<Rightarrow> Inl (LookupError c)
      | [] \<Rightarrow>
          (let locs = map (get_loc T) selected_cols
           in Inr \<lparr>columns = map ((!) (columns T)) locs,
                   rows = map (\<lambda>r. (fst r, map ((!) (snd r)) locs)) (rows T)\<rparr>))"

datatype chart_type = Bar | Line | Scatter | Histogram

text \<open>
  The visualization expander (lines 133 to 153). \<open>x_axis\<close> and \<open>y_choice\<close> are what the
  two select boxes return; the second box exists only when more than one column is
  selected. The result is what is written to the page.
\<close>

definition visualization ::
  "'f table \<Rightarrow> string list \<Rightarrow> chart_type \<Rightarrow> string \<Rightarrow> string \<Rightarrow>
   py_error + 'f element list" where
  "visualization df selected_cols chart x_axis y_choice =
     (if selected_cols = [] then Inr [Warning ''Select columns to visualize'']
      else
        (let y_axis = (if length selected_cols > 1 then y_choice else x_axis) in
         case chart of
           Bar \<Rightarrow>
             (case project df [x_axis, y_axis] of
                Inl e \<Rightarrow> Inl e | Inr d \<Rightarrow> Inr [BarChart d])
         | Line \<Rightarrow>
             (case project df [x_axis, y_axis] of
                Inl e \<Rightarrow> Inl e | Inr d \<Rightarrow> Inr [LineChart d])
         | Scatter \<Rightarrow>
             (case get_dtype df x_axis of
                Inl e \<Rightarrow> Inl e
              | Inr dx \<Rightarrow>
                  (if is_numeric_dtype dx then
                     (case get_dtype df y_axis of
                        Inl e \<Rightarrow> Inl e
                      | Inr dy \<Rightarrow>
                          (if is_numeric_dtype dy then
                             (case project df [x_axis, y_axis] of
                                Inl e \<Rightarrow> Inl e
                              | Inr d \<Rightarrow>
                                  Inr [Write ''Scatter plots require numeric columns'',
                                       ScatterChart d])
                           else Inr [Write ''Scatter plots require numeric columns'']))
                   else Inr [Write ''Scatter plots require numeric columns'']))
         | Histogram \<Rightarrow>
             (case getitem df x_axis of
                Inl e \<Rightarrow> Inl e | Inr xs \<Rightarrow> Inr [Pyplot xs])))"

text \<open>
  \<^verbatim>\<open>s.split(sep)\<close> for a separator of one character: the pieces between the
  separators; there is always at least one piece.
\<close>

fun py_split :: "char \<Rightarrow> string \<Rightarrow> string list" where
  "py_split sep [] = [[]]"
| "py_split sep (c # cs) =
     (if c = sep then [] # py_split sep cs
      else (c # hd (py_split sep cs)) # tl (py_split sep cs))"

datatype target_format = CSV | Excel

definition ext :: "target_format \<Rightarrow> string" where
  "ext f = (case f of CSV \<Rightarrow> ''.csv'' | Excel \<Rightarrow> ''.xlsx'')"

text \<open>The \<^verbatim>\<open>file_name\<close> of the download button (line 176).\<close>

definition download_file_name :: "string \<Rightarrow> target_format \<Rightarrow> string" where
  "download_file_name file_name f = ''converted_'' @ hd (py_split (CHR ''.'') file_name) @ ext f"

section \<open>What the specification says, in its own words\<close>

text \<open>
  The first-most-frequent value of a column: of the values that occur most often, the
  one that occurs first in the column.
\<close>

definition first_most_frequent :: "'f list \<Rightarrow> 'f" where
  "first_most_frequent xs =
     hd (filter (\<lambda>x. list_all (\<lambda>y. count_list xs y \<le> count_list xs x) xs) xs)"

text \<open>
  The smallest of the values that occur most often, and the value that each strategy
  puts in the place of the missing entries of a column: the mean and the median are
  those of the library.
\<close>

definition smallest_most_frequent :: "'f::linorder list \<Rightarrow> 'f" where
  "smallest_most_frequent xs =
     Min (set (filter (\<lambda>x. list_all (\<lambda>y. count_list xs y \<le> count_list xs x) xs) xs))"

definition column_statistic :: "'f::linorder library \<Rightarrow> strategy \<Rightarrow> 'f cell list \<Rightarrow> 'f cell" where
  "column_statistic lib s cs =
     (case s of
        Mean \<Rightarrow> mean lib cs
      | Median \<Rightarrow> median lib cs
      | Mode \<Rightarrow> Num (smallest_most_frequent (numbers cs))
      | _ \<Rightarrow> NaN)"

text \<open>
  The base name of a file without its extension: the name up to its last dot (the whole
  name when it has no dot).
\<close>

definition base_name_without_extension :: "string \<Rightarrow> string" where
  "base_name_without_extension s =
     (if CHR ''.'' \<in> set s then rev (tl (dropWhile (\<lambda>c. c \<noteq> CHR ''.'') (rev s))) else s)"

section \<open>Example inputs\<close>

text \<open>
  Two libraries over the rationals for the examples, one without and one with
  copy-on-write. Their mean and median are exact; on the columns of the examples the
  float results are the same.
\<close>

definition exact_mean :: "rat cell list \<Rightarrow> rat cell" where
  "exact_mean cs =
     (let xs = numbers cs in
      if xs = [] then NaN else Num (sum_list xs / of_nat (length xs)))"

definition exact_median :: "rat cell list \<Rightarrow> rat cell" where
  "exact_median cs =
     (let xs = sort (numbers cs); n = length xs in
      if n = 0 then NaN
      else if odd n then Num (xs ! (n div 2))
      else Num ((xs ! (n div 2 - 1) + xs ! (n div 2)) / 2))"

definition view_library :: "rat library" where
  "view_library = \<lparr>copy_on_write = False, mean = exact_mean, median = exact_median\<rparr>"

definition copy_library :: "rat library" where
  "copy_library = \<lparr>copy_on_write = True, mean = exact_mean, median = exact_median\<rparr>"

text \<open>
  The file \<^verbatim>\<open>a.csv\<close> of the specification's scenario: columns \<open>x\<close> and \<open>y\<close>, rows
  \<open>(1, 2)\<close>, \<open>(1, 2)\<close> and \<open>(3, )\<close>, with a column of text added.
\<close>

definition scenario_table :: "rat table" where
  "scenario_table =
     \<lparr>columns = [(''x'', Int64), (''y'', Float64), (''z'', Object)],
      rows = [(0, [Num 1, Num 2, Str ''a'']), (1, [Num 1, Num 2, Str ''a'']),
              (2, [Num 3, NaN, NaN])]\<rparr>"

definition empty_app :: "rat app" where
  "empty_app = \<lparr>session_state = Map.empty, page = []\<rparr>"

text \<open>The table of the scenario after \<open>Mean\<close>, and after \<open>Drop Rows\<close>.\<close>

definition scenario_mean :: "rat table" where
  "scenario_mean =
     \<lparr>columns = [(''x'', Int64), (''y'', Float64), (''z'', Object)],
      rows = [(0, [Num 1, Num 2, Str ''a'']), (1, [Num 1, Num 2, Str ''a'']),
              (2, [Num 3, Num 2, NaN])]\<rparr>"

definition scenario_dropped :: "rat table" where
  "scenario_dropped =
     \<lparr>columns = [(''x'', Int64), (''y'', Float64), (''z'', Object)],
      rows = [(0, [Num 1, Num 2, Str ''a'']), (1, [Num 1, Num 2, Str ''a''])]\<rparr>"

text \<open>A column in which 3 and 1 occur once each, 3 first; and the column after \<open>Mode\<close>.\<close>

definition tie_table :: "rat table" where
  "tie_table = \<lparr>columns = [(''x'', Float64)], rows = [(0, [Num 3]), (1, [Num 1]), (2, [NaN])]\<rparr>"

definition tie_mode :: "rat table" where
  "tie_mode = \<lparr>columns = [(''x'', Float64)], rows = [(0, [Num 3]), (1, [Num 1]), (2, [Num 1])]\<rparr>"

text \<open>A number column \<open>w\<close> without any value, and a table of text only.\<close>

definition all_missing_table :: "rat table" where
  "all_missing_table =
     \<lparr>columns = [(''x'', Float64), (''w'', Float64)],
      rows = [(0, [Num 3, NaN]), (1, [Num 1, NaN])]\<rparr>"

definition text_table :: "rat table" where
  "text_table = \<lparr>columns = [(''z'', Object)], rows = [(0, [Str ''a'']), (1, [NaN])]\<rparr>"

section \<open>Removing duplicates\<close>

lemma duplicated_length [simp]: "length (duplicated seen rs) = length rs"
  by (induction rs arbitrary: seen) auto

lemma duplicated_nth:
  "i < length rs \<Longrightarrow>
   duplicated seen rs ! i = (rs ! i \<in> set seen \<or> (\<exists>j<i. rs ! j = rs ! i))"
proof (induction rs arbitrary: seen i)
  case Nil
  then show ?case by simp
next
  case (Cons r rs)
  show ?case
  proof (cases i)
    case 0
    then show ?thesis by simp
  next
    case (Suc k)
    with Cons.prems have k: "k < length rs" by simp
    have "(\<exists>j<Suc k. (r # rs) ! j = rs ! k) = (r = rs ! k \<or> (\<exists>j<k. rs ! j = rs ! k))"
      by (auto simp: less_Suc_eq_0_disj)
    with Suc k Cons.IH[OF k, of "r # seen"] show ?thesis by auto
  qed
qed

lemma boolean_mask_Nil [simp]: "boolean_mask [] bs = []"
  by (simp add: boolean_mask_def)

lemma boolean_mask_Cons [simp]:
  "boolean_mask (x # xs) (b # bs) = (if b then x # boolean_mask xs bs else boolean_mask xs bs)"
  by (simp add: boolean_mask_def)

lemma boolean_mask_nth:
  "length bs = length xs \<Longrightarrow>
   boolean_mask xs bs = map ((!) xs) (filter (\<lambda>i. bs ! i) [0..<length xs])"
proof (induction xs arbitrary: bs)
  case Nil
  then show ?case by simp
next
  case (Cons x xs)
  then obtain b bs' where bs: "bs = b # bs'" and len: "length bs' = length xs"
    by (cases bs) auto
  have upt: "[0..<length (x # xs)] = 0 # map Suc [0..<length xs]"
    by (simp add: upt_conv_Cons map_Suc_upt del: upt_Suc)
  show ?case
    unfolding upt bs using Cons.IH[OF len]
    by (simp add: filter_map o_def)
qed

text \<open>The rows kept are new with respect to the rows seen, and pairwise different.\<close>

lemma kept_fresh:
  "snd ` set (boolean_mask rs (map Not (duplicated seen (map snd rs)))) \<inter> set seen = {} \<and>
   distinct (map snd (boolean_mask rs (map Not (duplicated seen (map snd rs)))))"
proof (induction rs arbitrary: seen)
  case Nil
  then show ?case by simp
next
  case (Cons r rs)
  from Cons.IH[of "snd r # seen"] show ?case by auto
qed

lemma kept_all:
  "distinct (map snd rs) \<Longrightarrow> snd ` set rs \<inter> set seen = {} \<Longrightarrow>
   boolean_mask rs (map Not (duplicated seen (map snd rs))) = rs"
proof (induction rs arbitrary: seen)
  case Nil
  then show ?case by simp
next
  case (Cons r rs)
  from Cons.prems have "distinct (map snd rs)" "snd ` set rs \<inter> set (snd r # seen) = {}"
    "snd r \<notin> set seen"
    by auto
  with Cons.IH[of "snd r # seen"] show ?case by simp
qed

text \<open>
  Claim C3. Removing duplicates twice gives the same table as removing them once.
\<close>

theorem drop_duplicates_idempotent:
  "drop_duplicates (drop_duplicates T) = drop_duplicates T"
  using kept_fresh[of "rows T" "[]"]
  by (simp add: drop_duplicates_def kept_all)

text \<open>
  Claim C4. Removing duplicates keeps the columns, and keeps of the rows exactly those
  whose cells differ from the cells of every earlier row, in their original order and
  with their labels: the first occurrence of each distinct row stays, every later
  occurrence goes.
\<close>

theorem drop_duplicates_first_occurrences:
  "columns (drop_duplicates T) = columns T \<and>
   rows (drop_duplicates T) =
     map ((!) (rows T))
       (filter (\<lambda>i. \<not> (\<exists>j<i. snd (rows T ! j) = snd (rows T ! i))) [0..<length (rows T)])"
proof -
  have "filter (\<lambda>i. map Not (duplicated [] (map snd (rows T))) ! i) [0..<length (rows T)] =
        filter (\<lambda>i. \<not> (\<exists>j<i. snd (rows T ! j) = snd (rows T ! i))) [0..<length (rows T)]"
    by (rule filter_cong) (auto simp: duplicated_nth)
  then show ?thesis
    by (simp add: drop_duplicates_def boolean_mask_nth)
qed

theorem drop_duplicates_first_occurrences_witness:
  "rows (drop_duplicates scenario_table) =
     map ((!) (rows scenario_table))
       (filter (\<lambda>i. \<not> (\<exists>j<i. snd (rows scenario_table ! j) = snd (rows scenario_table ! i)))
          [0..<length (rows scenario_table)]) \<and>
   rows (drop_duplicates scenario_table) = [(0, [Num 1, Num 2, Str ''a'']), (2, [Num 3, NaN, NaN])]"
  using drop_duplicates_first_occurrences[of scenario_table]
  by (simp add: scenario_table_def drop_duplicates_def)

section \<open>Columns by label and filling in place\<close>

lemma get_loc_less:
  assumes "c \<in> set (map fst (columns T))"
  shows "get_loc T c < length (columns T)"
proof -
  from assms have "\<not> (\<forall>p\<in>set (columns T). fst p \<noteq> c)" by auto
  then have "takeWhile (\<lambda>p. fst p \<noteq> c) (columns T) \<noteq> columns T"
    by auto
  then have "length (takeWhile (\<lambda>p. fst p \<noteq> c) (columns T)) \<noteq> length (columns T)"
    by (metis takeWhile_eq_take take_all order_refl)
  with length_takeWhile_le[of "\<lambda>p. fst p \<noteq> c" "columns T"] show ?thesis
    by (simp add: get_loc_def)
qed

lemma get_loc_fst:
  "c \<in> set (map fst (columns T)) \<Longrightarrow> fst (columns T ! get_loc T c) = c"
  using get_loc_less[of c T] nth_length_takeWhile[of "\<lambda>p. fst p \<noteq> c" "columns T"]
  by (simp add: get_loc_def)

lemma get_loc_neq:
  "c \<in> set (map fst (columns T)) \<Longrightarrow> c' \<in> set (map fst (columns T)) \<Longrightarrow> c \<noteq> c' \<Longrightarrow>
   get_loc T c \<noteq> get_loc T c'"
  using get_loc_fst by metis

lemma get_loc_nth:
  assumes d: "distinct (map fst (columns T))" and j: "j < length (columns T)"
  shows "get_loc T (fst (columns T ! j)) = j"
proof -
  let ?c = "fst (columns T ! j)"
  have in_names: "?c \<in> set (map fst (columns T))" using j by simp
  have l: "get_loc T ?c < length (map fst (columns T))"
    using get_loc_less[OF in_names] by simp
  have "map fst (columns T) ! get_loc T ?c = map fst (columns T) ! j"
    using get_loc_fst[OF in_names] get_loc_less[OF in_names] j by simp
  moreover have "j < length (map fst (columns T))" using j by simp
  ultimately show ?thesis
    using nth_eq_iff_index_eq[OF d l, of j] by blast
qed

lemma get_loc_rows_update [simp]: "get_loc (T\<lparr>rows := rs\<rparr>) c = get_loc T c"
  by (simp add: get_loc_def)

lemma zip_map_self: "zip xs (map f xs) = map (\<lambda>x. (x, f x)) xs"
  by (induction xs) auto

lemma fillna_inplace_copy: "copy_on_write lib \<Longrightarrow> fillna_inplace lib T c v = T"
  by (simp add: fillna_inplace_def)

lemma fillna_inplace_rows:
  "\<not> copy_on_write lib \<Longrightarrow>
   fillna_inplace lib T c v =
     T\<lparr>rows := map (\<lambda>r. (fst r, (snd r)[get_loc T c :=
            (if snd r ! get_loc T c = NaN then v else snd r ! get_loc T c)])) (rows T)\<rparr>"
  by (simp add: fillna_inplace_def set_series_def series_def fillna_def zip_map_self o_def)

lemma fillna_inplace_columns [simp]: "columns (fillna_inplace lib T c v) = columns T"
  by (cases "copy_on_write lib") (simp_all add: fillna_inplace_rows fillna_inplace_copy)

lemma fillna_inplace_get_loc [simp]: "get_loc (fillna_inplace lib T c v) c' = get_loc T c'"
  by (simp add: get_loc_def)

lemma fillna_inplace_labels [simp]:
  "map fst (rows (fillna_inplace lib T c v)) = map fst (rows T)"
  by (cases "copy_on_write lib") (simp_all add: fillna_inplace_rows fillna_inplace_copy o_def)

lemma fillna_inplace_wf: "wf_table T \<Longrightarrow> wf_table (fillna_inplace lib T c v)"
  by (cases "copy_on_write lib")
    (simp_all add: wf_table_def fillna_inplace_rows fillna_inplace_copy list_all_iff)

lemma fillna_inplace_series_other:
  "get_loc T c' \<noteq> get_loc T c \<Longrightarrow> series (fillna_inplace lib T c v) c' = series T c'"
  by (cases "copy_on_write lib")
    (simp_all add: series_def fillna_inplace_rows fillna_inplace_copy o_def)

lemma fillna_inplace_series_same:
  assumes "wf_table T" "c \<in> set (map fst (columns T))"
  shows "series (fillna_inplace lib T c v) c =
           (if copy_on_write lib then series T c else fillna v (series T c))"
proof (cases "copy_on_write lib")
  case True
  then show ?thesis by (simp add: fillna_inplace_copy)
next
  case False
  have "\<forall>r\<in>set (rows T). get_loc T c < length (snd r)"
    using assms get_loc_less[of c T] by (simp add: wf_table_def list_all_iff)
  with False show ?thesis
    by (simp add: series_def fillna_inplace_rows o_def fillna_def)
qed

section \<open>The mode of a column\<close>

lemma fold_max_Max: "fold max ys (0::nat) = Max (insert 0 (set ys))"
  using Max.set_eq_fold[of 0 ys] by simp

lemma hd_sort_Min:
  fixes zs :: "'a::linorder list"
  assumes "zs \<noteq> []"
  shows "hd (sort zs) = Min (set zs)"
proof -
  have "set (sort zs) = set zs" by simp
  with assms obtain y ys where ys: "sort zs = y # ys"
    by (cases "sort zs") auto
  have "sorted (y # ys)" using sorted_sort[of zs] ys by simp
  then have "\<forall>z\<in>set (y # ys). y \<le> z" by auto
  moreover have "set (y # ys) = set zs" using ys set_sort[of "\<lambda>x. x" zs] by simp
  ultimately have "Min (set zs) = y"
    by (intro Min_eqI) auto
  then show ?thesis by (simp add: ys)
qed

lemma max_count:
  fixes f :: "'a \<Rightarrow> nat"
  assumes x: "x \<in> set xs"
  shows "f x = Max (insert 0 (f ` set xs)) \<longleftrightarrow> (\<forall>y\<in>set xs. f y \<le> f x)"
proof
  assume eq: "f x = Max (insert 0 (f ` set xs))"
  show "\<forall>y\<in>set xs. f y \<le> f x"
  proof
    fix y assume "y \<in> set xs"
    then have "f y \<le> Max (insert 0 (f ` set xs))" by (intro Max_ge) auto
    with eq show "f y \<le> f x" by simp
  qed
next
  assume le: "\<forall>y\<in>set xs. f y \<le> f x"
  have "Max (insert 0 (f ` set xs)) \<in> insert 0 (f ` set xs)" by (intro Max_in) auto
  then consider "Max (insert 0 (f ` set xs)) = 0"
    | y where "y \<in> set xs" "Max (insert 0 (f ` set xs)) = f y"
    by auto
  then have upper: "Max (insert 0 (f ` set xs)) \<le> f x"
    using le by cases auto
  have lower: "f x \<le> Max (insert 0 (f ` set xs))" using x by (intro Max_ge) auto
  from lower upper show "f x = Max (insert 0 (f ` set xs))" by (rule antisym)
qed

lemma mode_set:
  "set (mode cs) =
     set (filter (\<lambda>x. list_all (\<lambda>y. count_list (numbers cs) y \<le> count_list (numbers cs) x)
        (numbers cs)) (numbers cs))"
proof -
  let ?xs = "numbers cs"
  have "set (mode cs) = {x \<in> set ?xs. count_list ?xs x = Max (insert 0 (count_list ?xs ` set ?xs))}"
    by (force simp: mode_def value_counts_def Let_def fold_max_Max o_def image_image)
  also have "\<dots> = {x \<in> set ?xs. \<forall>y\<in>set ?xs. count_list ?xs y \<le> count_list ?xs x}"
    using max_count[of _ ?xs "count_list ?xs"] by blast
  finally show ?thesis by (simp add: list_all_iff)
qed

lemma mode_Nil: "numbers cs = [] \<Longrightarrow> mode cs = []"
  by (simp add: mode_def value_counts_def)

lemma mode_nonempty:
  assumes "numbers cs \<noteq> []"
  shows "mode cs \<noteq> []"
proof -
  let ?xs = "numbers cs"
  let ?M = "Max (insert 0 (count_list ?xs ` set ?xs))"
  obtain x where x: "x \<in> set ?xs" using assms by (cases ?xs) auto
  have "?M \<in> insert 0 (count_list ?xs ` set ?xs)" by (intro Max_in) auto
  then consider "?M = 0" | y where "y \<in> set ?xs" "?M = count_list ?xs y"
    by auto
  then obtain z where z: "z \<in> set ?xs" "count_list ?xs z = ?M"
  proof cases
    case 1
    have "count_list ?xs x \<le> ?M" using x by (intro Max_ge) auto
    with 1 x that show ?thesis by simp
  next
    case 2
    with that show ?thesis by simp
  qed
  then have "z \<in> set (mode cs)"
    using max_count[of z ?xs "count_list ?xs"] by (simp add: mode_set list_all_iff)
  then show ?thesis by auto
qed

lemma mode_hd:
  assumes "numbers cs \<noteq> []"
  shows "hd (mode cs) = smallest_most_frequent (numbers cs)"
proof -
  obtain zs where zs: "mode cs = sort zs"
    by (simp add: mode_def Let_def)
  with mode_nonempty[OF assms] have "zs \<noteq> []" by auto
  then have "hd (mode cs) = Min (set (mode cs))"
    using hd_sort_Min[of zs] zs by simp
  then show ?thesis by (simp add: mode_set smallest_most_frequent_def)
qed

lemma getitem0_mode:
  "getitem0 (mode cs) =
     (if numbers cs = [] then Inl (LookupError ''0'') else Inr (smallest_most_frequent (numbers cs)))"
  using mode_Nil[of cs] mode_nonempty[of cs] mode_hd[of cs]
  by (auto simp: getitem0_def split: list.splits)

section \<open>The loop over the number columns\<close>

lemma fillna_NaN [simp]: "fillna NaN cs = cs"
  by (simp add: fillna_def map_idI)

lemma get_loc_cong: "columns T1 = columns T \<Longrightarrow> get_loc T1 c = get_loc T c"
  by (simp add: get_loc_def)

lemma fillna_inplace_effect:
  assumes "wf_table T" and "c \<in> set (map fst (columns T))"
  shows "columns (fillna_inplace lib T c v) = columns T \<and>
         map fst (rows (fillna_inplace lib T c v)) = map fst (rows T) \<and>
         wf_table (fillna_inplace lib T c v) \<and>
         series (fillna_inplace lib T c v) c =
           (if copy_on_write lib then series T c else fillna v (series T c)) \<and>
         (\<forall>c'. get_loc T c' \<noteq> get_loc T c \<longrightarrow>
            series (fillna_inplace lib T c v) c' = series T c')"
  using assms
  by (simp add: fillna_inplace_wf fillna_inplace_series_same fillna_inplace_series_other)

lemma impute_col_effect:
  assumes wf: "wf_table T" and c: "c \<in> set (map fst (columns T))"
    and run: "impute_col lib s c T = Inr T1"
  shows "columns T1 = columns T \<and> map fst (rows T1) = map fst (rows T) \<and> wf_table T1 \<and>
         series T1 c =
           (if copy_on_write lib then series T c
            else fillna (column_statistic lib s (series T c)) (series T c)) \<and>
         (\<forall>c'. get_loc T c' \<noteq> get_loc T c \<longrightarrow> series T1 c' = series T c')"
proof (cases s)
  case NoStrategy
  with run wf show ?thesis by (auto simp: column_statistic_def)
next
  case Mean
  with run have "T1 = fillna_inplace lib T c (column_statistic lib s (series T c))"
    by (auto simp: column_statistic_def)
  then show ?thesis using fillna_inplace_effect[OF wf c, of lib] by simp
next
  case Median
  with run have "T1 = fillna_inplace lib T c (column_statistic lib s (series T c))"
    by (auto simp: column_statistic_def)
  then show ?thesis using fillna_inplace_effect[OF wf c, of lib] by simp
next
  case Mode
  with run have "T1 = fillna_inplace lib T c (column_statistic lib s (series T c))"
    by (auto simp: column_statistic_def getitem0_mode split: if_splits)
  then show ?thesis using fillna_inplace_effect[OF wf c, of lib] by simp
next
  case DropRows
  with run wf show ?thesis by (auto simp: column_statistic_def)
qed

lemma impute_cols_effect:
  assumes "wf_table T" and "set cs \<subseteq> set (map fst (columns T))" and "distinct cs"
    and "impute_cols lib s cs T = Inr T'"
  shows "columns T' = columns T \<and> map fst (rows T') = map fst (rows T) \<and> wf_table T' \<and>
         (\<forall>c\<in>set (map fst (columns T)). series T' c =
            (if c \<in> set cs \<and> \<not> copy_on_write lib
             then fillna (column_statistic lib s (series T c)) (series T c)
             else series T c))"
  using assms
proof (induction cs arbitrary: T)
  case Nil
  then show ?case by simp
next
  case (Cons a cs)
  from Cons.prems obtain T1 where step: "impute_col lib s a T = Inr T1"
    and rest: "impute_cols lib s cs T1 = Inr T'"
    by (auto split: sum.splits)
  from Cons.prems have a: "a \<in> set (map fst (columns T))" by simp
  note e = impute_col_effect[OF Cons.prems(1) a step]
  from e have cols: "columns T1 = columns T" and wf1: "wf_table T1" by simp_all
  from Cons.prems cols have sub: "set cs \<subseteq> set (map fst (columns T1))" and d: "distinct cs"
    and na: "a \<notin> set cs"
    by simp_all
  note ih = Cons.IH[OF wf1 sub d rest]
  have "series T' c =
          (if c \<in> set (a # cs) \<and> \<not> copy_on_write lib
           then fillna (column_statistic lib s (series T c)) (series T c)
           else series T c)" if c: "c \<in> set (map fst (columns T))" for c
  proof -
    from c cols have "c \<in> set (map fst (columns T1))" by simp
    with ih have ihc: "series T' c =
        (if c \<in> set cs \<and> \<not> copy_on_write lib
         then fillna (column_statistic lib s (series T1 c)) (series T1 c)
         else series T1 c)"
      by blast
    show ?thesis
    proof (cases "c = a")
      case True
      with ihc na e show ?thesis by simp
    next
      case False
      with c a have "get_loc T c \<noteq> get_loc T a" by (rule get_loc_neq)
      with e have "series T1 c = series T c" by simp
      with ihc False show ?thesis by simp
    qed
  qed
  with ih e show ?case by simp
qed

section \<open>Missing values\<close>

lemma select_dtypes_number_subset: "set (select_dtypes_number T) \<subseteq> set (map fst (columns T))"
  by (auto simp: select_dtypes_number_def)

lemma select_dtypes_number_distinct: "wf_table T \<Longrightarrow> distinct (select_dtypes_number T)"
  by (simp add: select_dtypes_number_def wf_table_def distinct_map_filter)

lemma column_dtype_unique:
  assumes "wf_table T" and "(c, d) \<in> set (columns T)" and "(c, d') \<in> set (columns T)"
  shows "d' = d"
proof -
  from assms(1) have "distinct (map fst (columns T))" by (simp add: wf_table_def)
  then show ?thesis using assms(3) assms(2) by (rule eq_key_imp_eq_value)
qed

lemma select_dtypes_number_iff:
  assumes "wf_table T" and "(c, d) \<in> set (columns T)"
  shows "c \<in> set (select_dtypes_number T) \<longleftrightarrow> is_number d"
proof
  assume "c \<in> set (select_dtypes_number T)"
  then obtain d' where "(c, d') \<in> set (columns T)" and n: "is_number d'"
    by (auto simp: select_dtypes_number_def)
  with assms have "d' = d" by (simp add: column_dtype_unique)
  with n show "is_number d" by simp
next
  assume "is_number d"
  with assms(2) have "(c, d) \<in> set (filter (\<lambda>p. is_number (snd p)) (columns T))" by simp
  then have "fst (c, d) \<in> set (select_dtypes_number T)"
    unfolding select_dtypes_number_def set_map by (rule imageI)
  then show "c \<in> set (select_dtypes_number T)" by simp
qed

lemma handle_data_cleaning_unclicked:
  "handle_data_cleaning lib T key False s st = missing_values_block lib s key (T, st)"
  by (simp add: handle_data_cleaning_def remove_duplicates_block_def)

lemma impute_cols_no_fill:
  "s = DropRows \<or> s = NoStrategy \<Longrightarrow> impute_cols lib s cs T = Inr T"
  by (induction cs) auto

lemma numbers_all_missing: "list_all (\<lambda>v. v = NaN) cs \<Longrightarrow> numbers cs = []"
  by (induction cs) auto

lemma impute_col_Mode_error: "impute_col lib Mode c T = Inl e \<Longrightarrow> e = LookupError ''0''"
  by (auto simp: getitem0_mode split: if_splits)

lemma impute_cols_Mode_raises:
  assumes "wf_table T" and "set cs \<subseteq> set (map fst (columns T))" and "c \<in> set cs"
    and "numbers (series T c) = []"
  shows "impute_cols lib Mode cs T = Inl (LookupError ''0'')"
  using assms
proof (induction cs arbitrary: T)
  case Nil
  then show ?case by simp
next
  case (Cons a cs)
  show ?case
  proof (cases "impute_col lib Mode a T")
    case (Inl e)
    then show ?thesis using impute_col_Mode_error[OF Inl] by simp
  next
    case (Inr T1)
    from Cons.prems have a: "a \<in> set (map fst (columns T))" by simp
    note e = impute_col_effect[OF Cons.prems(1) a Inr]
    have ne: "a \<noteq> c"
    proof
      assume "a = c"
      with Inr Cons.prems(4) show False by (simp add: getitem0_mode)
    qed
    with Cons.prems have c: "c \<in> set cs" "c \<in> set (map fst (columns T))" by auto
    from c(2) a ne[symmetric] have "get_loc T c \<noteq> get_loc T a" by (rule get_loc_neq)
    with e Cons.prems(4) have "numbers (series T1 c) = []" by simp
    moreover from e Cons.prems have "wf_table T1" "set cs \<subseteq> set (map fst (columns T1))" by simp_all
    ultimately have "impute_cols lib Mode cs T1 = Inl (LookupError ''0'')"
      using c(1) by (intro Cons.IH)
    with Inr show ?thesis by simp
  qed
qed

lemma list_all_map_filter:
  "list_all P (map f (filter Q xs)) = list_all (\<lambda>p. Q p \<longrightarrow> P (f p)) xs"
  by (induction xs) simp_all

lemma cleaning_series:
  assumes wf: "wf_table T" and s: "s = Mean \<or> s = Median \<or> s = Mode"
    and run: "handle_data_cleaning lib T key False s st = Inr (T', st')"
    and c: "(c, d) \<in> set (columns T)"
  shows "columns T' = columns T \<and> map fst (rows T') = map fst (rows T) \<and> wf_table T' \<and>
         series T' c =
           map (\<lambda>v. if \<not> copy_on_write lib \<and> is_number d \<and> v = NaN
                      then column_statistic lib s (series T c) else v)
             (series T c)"
proof (cases "select_dtypes_number T = []")
  case True
  with run s have "T' = T"
    by (auto simp: handle_data_cleaning_unclicked missing_values_block_def)
  moreover from True wf c have "\<not> is_number d"
    using select_dtypes_number_iff[OF wf c] by simp
  ultimately show ?thesis using wf by simp
next
  case False
  with run s have loop: "impute_cols lib s (select_dtypes_number T) T = Inr T'"
    by (auto simp: handle_data_cleaning_unclicked missing_values_block_def Let_def
        split: sum.splits)
  note e = impute_cols_effect[OF wf select_dtypes_number_subset
      select_dtypes_number_distinct[OF wf] loop]
  from c have "c \<in> set (map fst (columns T))" by force
  with e have "series T' c =
      (if c \<in> set (select_dtypes_number T) \<and> \<not> copy_on_write lib
       then fillna (column_statistic lib s (series T c)) (series T c) else series T c)"
    by blast
  then have "series T' c =
      map (\<lambda>v. if \<not> copy_on_write lib \<and> is_number d \<and> v = NaN
                 then column_statistic lib s (series T c) else v) (series T c)"
    by (cases "is_number d"; cases "copy_on_write lib")
      (simp_all add: select_dtypes_number_iff[OF wf c] fillna_def)
  with e show ?thesis by simp
qed

text \<open>
  Only \<open>Mode\<close> can raise, and it returns a table when every column of number dtype
  holds a number.
\<close>

lemma impute_cols_returns:
  "s \<noteq> Mode \<Longrightarrow> \<exists>T'. impute_cols lib s cs T = Inr T'"
proof (induction cs arbitrary: T)
  case Nil
  then show ?case by simp
next
  case (Cons a cs)
  then obtain T1 where "impute_col lib s a T = Inr T1" by (cases s) auto
  with Cons show ?case by simp
qed

lemma impute_cols_Mode_returns:
  assumes "wf_table T" and "set cs \<subseteq> set (map fst (columns T))" and "distinct cs"
    and "\<forall>c\<in>set cs. numbers (series T c) \<noteq> []"
  shows "\<exists>T'. impute_cols lib Mode cs T = Inr T'"
  using assms
proof (induction cs arbitrary: T)
  case Nil
  then show ?case by simp
next
  case (Cons a cs)
  from Cons.prems have a: "a \<in> set (map fst (columns T))"
    and na: "numbers (series T a) \<noteq> []"
    by simp_all
  from na obtain T1 where step: "impute_col lib Mode a T = Inr T1"
    by (simp add: getitem0_mode)
  note e = impute_col_effect[OF Cons.prems(1) a step]
  have "numbers (series T1 c) \<noteq> []" if c: "c \<in> set cs" for c
  proof -
    from c Cons.prems have "c \<in> set (map fst (columns T))" and "c \<noteq> a" by auto
    with a have "get_loc T c \<noteq> get_loc T a" by (intro get_loc_neq)
    with e have "series T1 c = series T c" by simp
    with c Cons.prems(4) show ?thesis by simp
  qed
  moreover from e Cons.prems have "wf_table T1" "set cs \<subseteq> set (map fst (columns T1))"
    "distinct cs"
    by simp_all
  ultimately obtain T' where "impute_cols lib Mode cs T1 = Inr T'"
    using Cons.IH[of T1] by blast
  with step show ?case by simp
qed

lemma cleaning_returns:
  assumes wf: "wf_table T"
    and vals: "s = Mode \<longrightarrow>
      list_all (\<lambda>p. is_number (snd p) \<longrightarrow> numbers (series T (fst p)) \<noteq> []) (columns T)"
  shows "\<exists>T' st'. handle_data_cleaning lib T key False s st = Inr (T', st')"
proof -
  have "\<exists>T1. impute_cols lib s (select_dtypes_number T) T = Inr T1"
  proof (cases "s = Mode")
    case True
    with vals have "list_all (\<lambda>c. numbers (series T c) \<noteq> []) (select_dtypes_number T)"
      by (simp add: select_dtypes_number_def list_all_map_filter)
    then have "\<forall>c\<in>set (select_dtypes_number T). numbers (series T c) \<noteq> []"
      by (simp only: list_all_iff)
    with wf True show ?thesis
      using impute_cols_Mode_returns[OF wf select_dtypes_number_subset
          select_dtypes_number_distinct[OF wf]]
      by simp
  next
    case False
    then show ?thesis by (rule impute_cols_returns)
  qed
  then obtain T1 where "impute_cols lib s (select_dtypes_number T) T = Inr T1" ..
  then show ?thesis
    by (simp add: handle_data_cleaning_unclicked missing_values_block_def Let_def)
qed

text \<open>With copy-on-write no strategy that fills changes the frame.\<close>

lemma impute_cols_copy:
  "copy_on_write lib \<Longrightarrow> impute_cols lib s cs T = Inr T' \<Longrightarrow> T' = T"
proof (induction cs)
  case Nil
  then show ?case by simp
next
  case (Cons a cs)
  from Cons.prems(2) obtain T1 where step: "impute_col lib s a T = Inr T1"
    and rest: "impute_cols lib s cs T1 = Inr T'"
    by (auto split: sum.splits)
  from step Cons.prems(1) have "T1 = T"
    by (cases s) (auto simp: fillna_inplace_copy split: sum.splits)
  with rest Cons show ?case by simp
qed

lemma copy_on_write_no_fill:
  assumes "copy_on_write lib" and "s \<noteq> DropRows"
    and "handle_data_cleaning lib T key False s st = Inr (T', st')"
  shows "T' = T"
  using assms impute_cols_copy[of lib s "select_dtypes_number T" T]
  by (auto simp: handle_data_cleaning_unclicked missing_values_block_def Let_def
      split: if_splits sum.splits)

lemma cleaning_frame:
  assumes wf: "wf_table T" and s: "s = Mean \<or> s = Median \<or> s = Mode"
    and run: "handle_data_cleaning lib T key False s st = Inr (T', st')"
  shows "columns T' = columns T \<and> map fst (rows T') = map fst (rows T) \<and> wf_table T'"
proof (cases "select_dtypes_number T = []")
  case True
  with run s have "T' = T"
    by (auto simp: handle_data_cleaning_unclicked missing_values_block_def)
  with wf show ?thesis by simp
next
  case False
  with run s have loop: "impute_cols lib s (select_dtypes_number T) T = Inr T'"
    by (auto simp: handle_data_cleaning_unclicked missing_values_block_def Let_def
        split: sum.splits)
  from impute_cols_effect[OF wf select_dtypes_number_subset
      select_dtypes_number_distinct[OF wf] loop]
  show ?thesis by simp
qed

lemmas eval_defs = handle_data_cleaning_def remove_duplicates_block_def missing_values_block_def
  select_dtypes_number_def is_number_def fillna_inplace_def set_series_def series_def get_loc_def
  fillna_def exact_mean_def exact_median_def view_library_def copy_library_def mode_def
  value_counts_def getitem0_def dropna_def wf_table_def Let_def

text \<open>
  Claim C1, as amended. On a library without copy-on-write, for a well-formed table and
  the strategy \<open>Mean\<close>, \<open>Median\<close> or \<open>Mode\<close> (for \<open>Mode\<close>, when every column of number
  dtype holds a number), the cleaning returns a table. Its columns and row labels are
  those of the input, and every column of the result is the column of the input in
  which, if its dtype is a number, each missing entry is replaced by the statistic of
  that column of the input (the library's mean, the library's median, or the smallest
  of its most frequent values); a column of another dtype is unchanged.
\<close>

theorem impute_fills_number_columns:
  assumes wf: "wf_table T" and s: "s = Mean \<or> s = Median \<or> s = Mode"
    and view: "\<not> copy_on_write lib"
    and vals: "s = Mode \<longrightarrow>
      list_all (\<lambda>p. is_number (snd p) \<longrightarrow> numbers (series T (fst p)) \<noteq> []) (columns T)"
  shows "\<exists>T' st'. handle_data_cleaning lib T key False s st = Inr (T', st') \<and>
           columns T' = columns T \<and> map fst (rows T') = map fst (rows T) \<and> wf_table T' \<and>
           (\<forall>p\<in>set (columns T).
              series T' (fst p) =
                map (\<lambda>v. if is_number (snd p) \<and> v = NaN
                           then column_statistic lib s (series T (fst p)) else v)
                  (series T (fst p)))"
proof -
  from cleaning_returns[OF wf vals] obtain T' st'
    where run: "handle_data_cleaning lib T key False s st = Inr (T', st')"
    by blast
  have "series T' (fst p) =
          map (\<lambda>v. if is_number (snd p) \<and> v = NaN
                     then column_statistic lib s (series T (fst p)) else v)
            (series T (fst p))" if "p \<in> set (columns T)" for p
  proof -
    from that have "(fst p, snd p) \<in> set (columns T)" by simp
    from cleaning_series[OF wf s run this] view show ?thesis by simp
  qed
  with run cleaning_frame[OF wf s run] show ?thesis by blast
qed

theorem impute_fills_number_columns_witness:
  "wf_table scenario_table \<and> \<not> copy_on_write view_library \<and>
   handle_data_cleaning view_library scenario_table ''k'' False Mean empty_app =
     Inr (scenario_mean, empty_app\<lparr>session_state := [''df_k'' \<mapsto> Some scenario_mean]\<rparr>) \<and>
   series scenario_mean ''y'' =
     map (\<lambda>v. if is_number Float64 \<and> v = NaN
                then column_statistic view_library Mean (series scenario_table ''y'') else v)
       (series scenario_table ''y'') \<and>
   series scenario_table ''y'' = [Num 2, Num 2, NaN] \<and>
   series scenario_mean ''y'' = [Num 2, Num 2, Num 2] \<and>
   wf_table tie_table \<and>
   list_all (\<lambda>p. is_number (snd p) \<longrightarrow> numbers (series tie_table (fst p)) \<noteq> [])
     (columns tie_table) \<and>
   handle_data_cleaning view_library tie_table ''k'' False Mode empty_app =
     Inr (tie_mode, empty_app\<lparr>session_state := [''df_k'' \<mapsto> Some tie_mode]\<rparr>) \<and>
   series tie_mode ''x'' =
     map (\<lambda>v. if is_number Float64 \<and> v = NaN
                then column_statistic view_library Mode (series tie_table ''x'') else v)
       (series tie_table ''x'') \<and>
   series tie_table ''x'' = [Num 3, Num 1, NaN] \<and>
   series tie_mode ''x'' = [Num 3, Num 1, Num 1]"
proof -
  have view: "\<not> copy_on_write view_library"
    by (simp add: view_library_def)
  have wf1: "wf_table scenario_table"
    by (simp add: wf_table_def scenario_table_def)
  have s1: "Mean = Mean \<or> Mean = Median \<or> Mean = Mode" by simp
  have v1: "Mean = Mode \<longrightarrow>
      list_all (\<lambda>p. is_number (snd p) \<longrightarrow> numbers (series scenario_table (fst p)) \<noteq> [])
        (columns scenario_table)"
    by simp
  have run1: "handle_data_cleaning view_library scenario_table ''k'' False Mean empty_app =
     Inr (scenario_mean, empty_app\<lparr>session_state := [''df_k'' \<mapsto> Some scenario_mean]\<rparr>)"
    by (simp add: eval_defs scenario_table_def scenario_mean_def empty_app_def)
  have c1: "(''y'', Float64) \<in> set (columns scenario_table)"
    by (simp add: scenario_table_def)
  from impute_fills_number_columns[OF wf1 s1 view v1, of "''k''" empty_app] run1
  have "\<forall>p\<in>set (columns scenario_table).
          series scenario_mean (fst p) =
            map (\<lambda>v. if is_number (snd p) \<and> v = NaN
                       then column_statistic view_library Mean (series scenario_table (fst p))
                       else v)
              (series scenario_table (fst p))"
    by auto
  from bspec[OF this c1]
  have k1: "series scenario_mean ''y'' =
     map (\<lambda>v. if is_number Float64 \<and> v = NaN
                then column_statistic view_library Mean (series scenario_table ''y'') else v)
       (series scenario_table ''y'')"
    by simp
  have a1: "series scenario_table ''y'' = [Num 2, Num 2, NaN]"
    by (simp add: series_def get_loc_def scenario_table_def)
  have b1: "series scenario_mean ''y'' = [Num 2, Num 2, Num 2]"
    by (simp add: series_def get_loc_def scenario_mean_def)
  have wf2: "wf_table tie_table"
    by (simp add: wf_table_def tie_table_def)
  have s2: "Mode = Mean \<or> Mode = Median \<or> Mode = Mode" by simp
  have v2: "list_all (\<lambda>p. is_number (snd p) \<longrightarrow> numbers (series tie_table (fst p)) \<noteq> [])
     (columns tie_table)"
    by (simp add: series_def get_loc_def tie_table_def)
  then have v2': "Mode = Mode \<longrightarrow>
      list_all (\<lambda>p. is_number (snd p) \<longrightarrow> numbers (series tie_table (fst p)) \<noteq> [])
        (columns tie_table)"
    by simp
  have run2: "handle_data_cleaning view_library tie_table ''k'' False Mode empty_app =
     Inr (tie_mode, empty_app\<lparr>session_state := [''df_k'' \<mapsto> Some tie_mode]\<rparr>)"
    by (simp add: eval_defs tie_table_def tie_mode_def empty_app_def)
  have c2: "(''x'', Float64) \<in> set (columns tie_table)"
    by (simp add: tie_table_def)
  from impute_fills_number_columns[OF wf2 s2 view v2', of "''k''" empty_app] run2
  have "\<forall>p\<in>set (columns tie_table).
          series tie_mode (fst p) =
            map (\<lambda>v. if is_number (snd p) \<and> v = NaN
                       then column_statistic view_library Mode (series tie_table (fst p))
                       else v)
              (series tie_table (fst p))"
    by auto
  from bspec[OF this c2]
  have k2: "series tie_mode ''x'' =
     map (\<lambda>v. if is_number Float64 \<and> v = NaN
                then column_statistic view_library Mode (series tie_table ''x'') else v)
       (series tie_table ''x'')"
    by simp
  have a2: "series tie_table ''x'' = [Num 3, Num 1, NaN]"
    by (simp add: series_def get_loc_def tie_table_def)
  have b2: "series tie_mode ''x'' = [Num 3, Num 1, Num 1]"
    by (simp add: series_def get_loc_def tie_mode_def)
  show ?thesis
    by (intro conjI view wf1 run1 k1 a1 b1 wf2 v2 run2 k2 a2 b2)
qed

text \<open>
  Claim C1 as stated fails on ties: in the column 3, 1, missing, both values occur
  once and 3 occurs first, but the missing entry is filled with 1. It also fails on a
  library with copy-on-write, where the missing entry of the scenario stays missing.
\<close>

theorem mode_tie_counterexample:
  "handle_data_cleaning view_library tie_table ''k'' False Mode empty_app =
     Inr (tie_mode, empty_app\<lparr>session_state := [''df_k'' \<mapsto> Some tie_mode]\<rparr>) \<and>
   series tie_table ''x'' ! 2 = NaN \<and>
   series tie_mode ''x'' ! 2 = Num 1 \<and>
   series tie_mode ''x'' ! 2 \<noteq> Num (first_most_frequent (numbers (series tie_table ''x''))) \<and>
   handle_data_cleaning copy_library scenario_table ''k'' False Mean empty_app =
     Inr (scenario_table, empty_app\<lparr>session_state := [''df_k'' \<mapsto> Some scenario_table]\<rparr>) \<and>
   series scenario_table ''y'' ! 2 = NaN"
  by (simp add: eval_defs tie_table_def tie_mode_def scenario_table_def empty_app_def
      first_most_frequent_def)

text \<open>
  Claim C6. When no column of the table has a number dtype, choosing any strategy
  returns the table as it is, leaves the session state as it is, and writes the warning
  to the page.
\<close>

theorem no_number_columns_noop:
  assumes "list_all (\<lambda>p. \<not> is_number (snd p)) (columns T)" and "s \<noteq> NoStrategy"
  shows "handle_data_cleaning lib T key False s st =
           Inr (T, st\<lparr>page := page st @ [Warning ''No numeric columns to fill!'']\<rparr>)"
proof -
  from assms(1) have "select_dtypes_number T = []"
    by (simp add: select_dtypes_number_def filter_empty_conv list_all_iff)
  with assms(2) show ?thesis
    by (simp add: handle_data_cleaning_unclicked missing_values_block_def)
qed

theorem no_number_columns_noop_witness:
  "list_all (\<lambda>p. \<not> is_number (snd p)) (columns text_table) \<and>
   handle_data_cleaning view_library text_table ''k'' False DropRows empty_app =
     Inr (text_table, \<lparr>session_state = Map.empty, page = [Warning ''No numeric columns to fill!'']\<rparr>)"
proof -
  have h: "list_all (\<lambda>p. \<not> is_number (snd p)) (columns text_table)"
    by (simp add: text_table_def is_number_def)
  have s: "DropRows \<noteq> NoStrategy" by simp
  from no_number_columns_noop[OF h s, of view_library "''k''" empty_app] h show ?thesis
    by (simp add: empty_app_def)
qed

text \<open>
  Claim C10. When a column of number dtype has only missing entries, choosing \<open>Mode\<close>
  raises the look-up error of the label 0 in the empty result of \<^verbatim>\<open>mode()\<close>: the cleaning
  returns no table.
\<close>

theorem mode_all_missing_raises:
  assumes "wf_table T" and "(c, d) \<in> set (columns T)" and "is_number d"
    and "list_all (\<lambda>v. v = NaN) (series T c)"
  shows "handle_data_cleaning lib T key False Mode st = Inl (LookupError ''0'')"
proof -
  from assms have c: "c \<in> set (select_dtypes_number T)"
    by (simp add: select_dtypes_number_iff)
  then have "select_dtypes_number T \<noteq> []" by auto
  moreover have "impute_cols lib Mode (select_dtypes_number T) T = Inl (LookupError ''0'')"
    using assms(1) select_dtypes_number_subset c numbers_all_missing[OF assms(4)]
    by (rule impute_cols_Mode_raises)
  ultimately show ?thesis
    by (simp add: handle_data_cleaning_unclicked missing_values_block_def)
qed

theorem mode_all_missing_raises_witness:
  "wf_table all_missing_table \<and> (''w'', Float64) \<in> set (columns all_missing_table) \<and>
   is_number Float64 \<and> list_all (\<lambda>v. v = NaN) (series all_missing_table ''w'') \<and>
   handle_data_cleaning view_library all_missing_table ''k'' False Mode empty_app = Inl (LookupError ''0'')"
proof -
  have wf: "wf_table all_missing_table"
    by (simp add: wf_table_def all_missing_table_def)
  have c: "(''w'', Float64) \<in> set (columns all_missing_table)"
    by (simp add: all_missing_table_def)
  have n: "is_number Float64" by (simp add: is_number_def)
  have m: "list_all (\<lambda>v. v = NaN) (series all_missing_table ''w'')"
    by (simp add: series_def get_loc_def all_missing_table_def)
  from mode_all_missing_raises[OF wf c n m, of view_library "''k''" empty_app] wf c n m show ?thesis
    by simp
qed

text \<open>
  Claim C2, as amended. In a well-formed table, a column of number dtype without
  missing entries is the same after \<open>Mean\<close>, \<open>Median\<close> or \<open>Mode\<close>, whenever the
  cleaning returns a table. After \<open>Drop Rows\<close> it holds the entries of the rows that are
  kept, those with no missing entry in any column of number dtype.
\<close>

theorem complete_number_column:
  assumes wf: "wf_table T" and c: "(c, d) \<in> set (columns T)" and n: "is_number d"
    and full: "NaN \<notin> set (series T c)"
    and run: "handle_data_cleaning lib T key False s st = Inr (T', st')"
  shows "(s \<noteq> DropRows \<longrightarrow> series T' c = series T c) \<and>
         (s = DropRows \<longrightarrow>
            series T' c =
              map (\<lambda>r. snd r ! get_loc T c)
                (filter (\<lambda>r. list_all (\<lambda>p. is_number (snd p) \<longrightarrow> snd r ! get_loc T (fst p) \<noteq> NaN)
                    (columns T)) (rows T)))"
proof -
  consider "s = NoStrategy" | "s = DropRows" | "s = Mean \<or> s = Median \<or> s = Mode"
    by (cases s) auto
  then show ?thesis
  proof cases
    case 1
    with run show ?thesis
      by (simp add: handle_data_cleaning_unclicked missing_values_block_def)
  next
    case 2
    from wf c n have "c \<in> set (select_dtypes_number T)"
      by (simp add: select_dtypes_number_iff)
    then have "select_dtypes_number T \<noteq> []" by auto
    with run 2 have "T' = dropna T (select_dtypes_number T)"
      by (simp add: handle_data_cleaning_unclicked missing_values_block_def impute_cols_no_fill
          Let_def)
    with 2 show ?thesis
      by (simp add: dropna_def series_def list_all_map_filter select_dtypes_number_def)
  next
    case 3
    have "map (\<lambda>v. if \<not> copy_on_write lib \<and> is_number d \<and> v = NaN
                     then column_statistic lib s (series T c) else v)
            (series T c) = series T c"
      using full by (intro map_idI) auto
    with cleaning_series[OF wf 3 run c] have "series T' c = series T c" by simp
    moreover from 3 have "s \<noteq> DropRows" by auto
    ultimately show ?thesis by simp
  qed
qed

theorem complete_number_column_witness:
  "wf_table scenario_table \<and> (''x'', Int64) \<in> set (columns scenario_table) \<and>
   is_number Int64 \<and> NaN \<notin> set (series scenario_table ''x'') \<and>
   handle_data_cleaning view_library scenario_table ''k'' False Mean empty_app =
     Inr (scenario_mean, empty_app\<lparr>session_state := [''df_k'' \<mapsto> Some scenario_mean]\<rparr>) \<and>
   series scenario_mean ''x'' = series scenario_table ''x''"
proof -
  have wf: "wf_table scenario_table"
    by (simp add: wf_table_def scenario_table_def)
  have c: "(''x'', Int64) \<in> set (columns scenario_table)"
    by (simp add: scenario_table_def)
  have n: "is_number Int64" by (simp add: is_number_def)
  have full: "NaN \<notin> set (series scenario_table ''x'')"
    by (simp add: series_def get_loc_def scenario_table_def)
  have run: "handle_data_cleaning view_library scenario_table ''k'' False Mean empty_app =
     Inr (scenario_mean, empty_app\<lparr>session_state := [''df_k'' \<mapsto> Some scenario_mean]\<rparr>)"
    by (simp add: eval_defs scenario_table_def scenario_mean_def empty_app_def)
  from complete_number_column[OF wf c n full run]
  have k: "series scenario_mean ''x'' = series scenario_table ''x''" by simp
  show ?thesis
    by (intro conjI wf c n full run k)
qed

text \<open>
  Claim C2 as stated fails for \<open>Drop Rows\<close>: the column \<open>x\<close> of the scenario has no
  missing entry, and loses the entry of the row in which \<open>y\<close> is missing.
\<close>

theorem drop_rows_counterexample:
  "(''x'', Int64) \<in> set (columns scenario_table) \<and> is_number Int64 \<and>
   NaN \<notin> set (series scenario_table ''x'') \<and>
   handle_data_cleaning view_library scenario_table ''k'' False DropRows empty_app =
     Inr (scenario_dropped,
          empty_app\<lparr>session_state := [''df_k'' \<mapsto> Some scenario_dropped]\<rparr>) \<and>
   series scenario_table ''x'' = [Num 1, Num 1, Num 3] \<and>
   series scenario_dropped ''x'' = [Num 1, Num 1] \<and>
   series scenario_dropped ''x'' \<noteq> series scenario_table ''x''"
  by (simp add: eval_defs scenario_table_def scenario_dropped_def empty_app_def)

section \<open>Reading a file\<close>

lemma endswith_append: "endswith s suffix \<Longrightarrow> \<exists>p. s = p @ suffix"
  unfolding endswith_def by (metis append_take_drop_id)

lemma csv_not_xlsx: "endswith s ''.xlsx'' \<Longrightarrow> \<not> endswith s ''.csv''"
proof
  assume "endswith s ''.xlsx''" and "endswith s ''.csv''"
  then obtain p q where "s = p @ ''.xlsx''" and "s = q @ ''.csv''"
    using endswith_append by blast
  then have "last (p @ ''.xlsx'') = last (q @ ''.csv'')" by simp
  then show False by simp
qed

text \<open>
  Claim C5. A name that ends in \<^verbatim>\<open>.csv\<close> is read by the CSV reader, a name that ends in
  \<^verbatim>\<open>.xlsx\<close> by the spreadsheet reader on sheet 0, and the frame read is returned with
  nothing written to the page. Any other name returns no frame and writes the error
  of the unsupported type with the name. An exception of a reader is caught: no frame
  is returned and the error written carries the name and the text of the exception.
  In every case a value is returned, and it is no frame exactly when an error is written.
\<close>

theorem process_file_contract:
  "(endswith (name file) ''.csv'' \<and> read_csv file = Inr df \<longrightarrow>
      process_file read_csv read_excel file = (Some df, [])) \<and>
   (endswith (name file) ''.xlsx'' \<and> read_excel file 0 = Inr df \<longrightarrow>
      process_file read_csv read_excel file = (Some df, [])) \<and>
   (\<not> endswith (name file) ''.csv'' \<and> \<not> endswith (name file) ''.xlsx'' \<longrightarrow>
      process_file read_csv read_excel file =
        (None, [Error (''Unsupported file type: '' @ name file)])) \<and>
   (endswith (name file) ''.csv'' \<and> read_csv file = Inl e \<longrightarrow>
      process_file read_csv read_excel file =
        (None, [Error (''Error processing '' @ name file @ '': '' @ e)])) \<and>
   (endswith (name file) ''.xlsx'' \<and> read_excel file 0 = Inl e \<longrightarrow>
      process_file read_csv read_excel file =
        (None, [Error (''Error processing '' @ name file @ '': '' @ e)])) \<and>
   (fst (process_file read_csv read_excel file) = None \<longleftrightarrow>
      snd (process_file read_csv read_excel file) \<noteq> [])"
  using csv_not_xlsx[of "name file"]
  by (auto simp: process_file_def split: sum.splits)

theorem process_file_contract_witness:
  "endswith ''a.csv'' ''.csv'' \<and> endswith ''b.xlsx'' ''.xlsx'' \<and>
   \<not> endswith ''c.txt'' ''.csv'' \<and> \<not> endswith ''c.txt'' ''.xlsx'' \<and>
   process_file (\<lambda>f. Inr scenario_table) (\<lambda>f n. Inl ''bad zip file'')
     \<lparr>name = ''a.csv'', data = []\<rparr> = (Some scenario_table, []) \<and>
   process_file (\<lambda>f. Inr scenario_table) (\<lambda>f n. Inl ''bad zip file'')
     \<lparr>name = ''b.xlsx'', data = []\<rparr> = (None, [Error ''Error processing b.xlsx: bad zip file'']) \<and>
   process_file (\<lambda>f. Inr scenario_table) (\<lambda>f n. Inl ''bad zip file'')
     \<lparr>name = ''c.txt'', data = []\<rparr> = (None, [Error ''Unsupported file type: c.txt''])"
proof -
  have e: "endswith ''a.csv'' ''.csv''" "endswith ''b.xlsx'' ''.xlsx''"
    "\<not> endswith ''c.txt'' ''.csv''" "\<not> endswith ''c.txt'' ''.xlsx''"
    by (simp_all add: endswith_def)
  have a: "process_file (\<lambda>f. Inr scenario_table) (\<lambda>f n. Inl ''bad zip file'')
     \<lparr>name = ''a.csv'', data = []\<rparr> = (Some scenario_table, [])"
    using e process_file_contract[of "\<lparr>name = ''a.csv'', data = []\<rparr>"
        "\<lambda>f. Inr scenario_table" scenario_table "\<lambda>f n. Inl ''bad zip file''"]
    by simp
  have b: "process_file (\<lambda>f. Inr scenario_table) (\<lambda>f n. Inl ''bad zip file'')
     \<lparr>name = ''b.xlsx'', data = []\<rparr> = (None, [Error ''Error processing b.xlsx: bad zip file''])"
    using e process_file_contract[of "\<lparr>name = ''b.xlsx'', data = []\<rparr>"
        "\<lambda>f. Inr scenario_table" _ "\<lambda>f n. Inl ''bad zip file''" "''bad zip file''"]
    by simp
  have c: "process_file (\<lambda>f. Inr scenario_table) (\<lambda>f n. Inl ''bad zip file'')
     \<lparr>name = ''c.txt'', data = []\<rparr> = (None, [Error ''Unsupported file type: c.txt''])"
    using e process_file_contract[of "\<lparr>name = ''c.txt'', data = []\<rparr>"
        "\<lambda>f. Inr scenario_table" _ "\<lambda>f n. Inl ''bad zip file''"]
    by simp
  show ?thesis
    by (intro conjI e a b c)
qed

section \<open>Selecting columns\<close>

lemma get_loc_names:
  assumes "distinct (map fst (columns T))"
  shows "map (get_loc T) (map fst (columns T)) = [0..<length (columns T)]"
proof (rule nth_equalityI)
  show "length (map (get_loc T) (map fst (columns T))) = length [0..<length (columns T)]" by simp
next
  fix i assume "i < length (map (get_loc T) (map fst (columns T)))"
  then have i: "i < length (columns T)" by simp
  with get_loc_nth[OF assms i] show "map (get_loc T) (map fst (columns T)) ! i = [0..<length (columns T)] ! i"
    by simp
qed

text \<open>
  Claim C7. Selecting all the columns of a well-formed table, in their order (the default
  of the selection), gives the table itself.
\<close>

theorem project_all_columns:
  assumes "wf_table T"
  shows "project T (map fst (columns T)) = Inr T"
proof -
  from assms have d: "distinct (map fst (columns T))"
    and w: "\<forall>r\<in>set (rows T). length (snd r) = length (columns T)"
    by (simp_all add: wf_table_def list_all_iff)
  have none: "filter (\<lambda>c. c \<notin> set (map fst (columns T))) (map fst (columns T)) = []"
    by (simp add: filter_empty_conv)
  have cols: "map ((!) (columns T)) [0..<length (columns T)] = columns T"
    by (rule map_nth)
  have "map ((!) (snd r)) [0..<length (columns T)] = snd r" if "r \<in> set (rows T)" for r
    using w that map_nth[of "snd r"] by simp
  then have rws: "map (\<lambda>r. (fst r, map ((!) (snd r)) [0..<length (columns T)])) (rows T) = rows T"
    by (intro map_idI) simp
  show ?thesis
    unfolding project_def none
    by (simp only: list.case Let_def get_loc_names[OF d] cols rws) simp
qed

theorem project_all_columns_witness:
  "wf_table scenario_table \<and> map fst (columns scenario_table) = [''x'', ''y'', ''z''] \<and>
   project scenario_table [''x'', ''y'', ''z''] = Inr scenario_table"
proof -
  have wf: "wf_table scenario_table"
    by (simp add: wf_table_def scenario_table_def)
  have n: "map fst (columns scenario_table) = [''x'', ''y'', ''z'']"
    by (simp add: scenario_table_def)
  from project_all_columns[OF wf] have "project scenario_table [''x'', ''y'', ''z''] = Inr scenario_table"
    by (simp only: n)
  with wf n show ?thesis by (intro conjI)
qed

section \<open>Charts\<close>

lemma get_dtype_Inr: "get_dtype T c = Inr d \<Longrightarrow> c \<in> set (map fst (columns T))"
  by (simp add: get_dtype_def split: if_splits)

text \<open>
  Claim C9. With a non-empty selection and axes that are columns of the table, the
  scatter branch writes its note and then draws the chart of the two columns exactly
  when the dtypes of both are numeric; when one is not, the note is all that is written:
  no chart, no warning, no error, and no exception.
\<close>

theorem scatter_requires_numeric:
  assumes sel: "selected_cols \<noteq> []"
    and y: "y_axis = (if length selected_cols > 1 then y_choice else x_axis)"
    and dx: "get_dtype df x_axis = Inr dx" and dy: "get_dtype df y_axis = Inr dy"
  shows "(is_numeric_dtype dx \<and> is_numeric_dtype dy \<longrightarrow>
           (\<exists>d. project df [x_axis, y_axis] = Inr d \<and>
                visualization df selected_cols Scatter x_axis y_choice =
                  Inr [Write ''Scatter plots require numeric columns'', ScatterChart d])) \<and>
         (\<not> (is_numeric_dtype dx \<and> is_numeric_dtype dy) \<longrightarrow>
           visualization df selected_cols Scatter x_axis y_choice =
             Inr [Write ''Scatter plots require numeric columns''])"
proof -
  from dx have "x_axis \<in> set (map fst (columns df))" by (rule get_dtype_Inr)
  moreover from dy have "y_axis \<in> set (map fst (columns df))" by (rule get_dtype_Inr)
  ultimately
  have "\<exists>d. project df [x_axis, y_axis] = Inr d"
    by (simp add: project_def Let_def)
  then obtain d where d: "project df [x_axis, y_axis] = Inr d" ..
  have v: "visualization df selected_cols Scatter x_axis y_choice =
     (if is_numeric_dtype dx then
        (if is_numeric_dtype dy then
           Inr [Write ''Scatter plots require numeric columns'', ScatterChart d]
         else Inr [Write ''Scatter plots require numeric columns''])
      else Inr [Write ''Scatter plots require numeric columns''])"
    using sel dx dy d unfolding visualization_def y[symmetric] Let_def
    by simp
  with d show ?thesis by simp
qed

theorem scatter_requires_numeric_witness:
  "get_dtype scenario_table ''x'' = Inr Int64 \<and> get_dtype scenario_table ''z'' = Inr Object \<and>
   is_numeric_dtype Int64 \<and> \<not> is_numeric_dtype Object \<and>
   visualization scenario_table [''x'', ''y'', ''z''] Scatter ''x'' ''z'' =
     Inr [Write ''Scatter plots require numeric columns''] \<and>
   visualization scenario_table [''x''] Scatter ''x'' ''z'' =
     Inr [Write ''Scatter plots require numeric columns'',
          ScatterChart \<lparr>columns = [(''x'', Int64), (''x'', Int64)],
                        rows = [(0, [Num 1, Num 1]), (1, [Num 1, Num 1]), (2, [Num 3, Num 3])]\<rparr>]"
proof -
  have dx: "get_dtype scenario_table ''x'' = Inr Int64"
    and dz: "get_dtype scenario_table ''z'' = Inr Object"
    by (simp_all add: get_dtype_def get_loc_def scenario_table_def)
  have n: "is_numeric_dtype Int64" "\<not> is_numeric_dtype Object"
    by (simp_all add: is_numeric_dtype_def)
  have p: "project scenario_table [''x'', ''x''] =
     Inr \<lparr>columns = [(''x'', Int64), (''x'', Int64)],
          rows = [(0, [Num 1, Num 1]), (1, [Num 1, Num 1]), (2, [Num 3, Num 3])]\<rparr>"
    by (simp add: project_def get_loc_def scenario_table_def)
  have a: "visualization scenario_table [''x'', ''y'', ''z''] Scatter ''x'' ''z'' =
     Inr [Write ''Scatter plots require numeric columns'']"
    using n scatter_requires_numeric[of "[''x'', ''y'', ''z'']" "''z''" "''z''" "''x''"
        scenario_table Int64 Object, OF _ _ dx dz]
    by simp
  have b: "visualization scenario_table [''x''] Scatter ''x'' ''z'' =
     Inr [Write ''Scatter plots require numeric columns'',
          ScatterChart \<lparr>columns = [(''x'', Int64), (''x'', Int64)],
                        rows = [(0, [Num 1, Num 1]), (1, [Num 1, Num 1]), (2, [Num 3, Num 3])]\<rparr>]"
    using n p scatter_requires_numeric[of "[''x'']" "''x''" "''z''" "''x''"
        scenario_table Int64 Int64, OF _ _ dx dx]
    by simp
  show ?thesis
    by (intro conjI dx dz n a b)
qed

section \<open>The name of the download\<close>

text \<open>A name with at most one dot is cut where its extension begins.\<close>

lemma hd_py_split: "hd (py_split sep s) = takeWhile (\<lambda>c. c \<noteq> sep) s"
  by (induction s) auto

lemma base_name_one_dot:
  assumes "count_list s (CHR ''.'') \<le> 1"
  shows "base_name_without_extension s = takeWhile (\<lambda>c. c \<noteq> CHR ''.'') s"
proof (cases "CHR ''.'' \<in> set s")
  case False
  then have tw: "takeWhile (\<lambda>c. c \<noteq> CHR ''.'') s = s"
    by (intro takeWhile_eq_all_conv[THEN iffD2]) auto
  show ?thesis
    unfolding base_name_without_extension_def tw using False by simp
next
  case True
  then obtain a b where s: "s = a @ CHR ''.'' # b" and a: "CHR ''.'' \<notin> set a"
    by (auto dest: split_list_first)
  with assms have b: "CHR ''.'' \<notin> set b" by (auto simp: count_list_0_iff)
  have pb: "x \<noteq> CHR ''.''" if "x \<in> set (rev b)" for x
    using b that by auto
  have pa: "x \<noteq> CHR ''.''" if "x \<in> set a" for x
    using a that by auto
  have "dropWhile (\<lambda>c. c \<noteq> CHR ''.'') (rev b @ CHR ''.'' # rev a) =
        dropWhile (\<lambda>c. c \<noteq> CHR ''.'') (CHR ''.'' # rev a)"
    using pb by (rule dropWhile_append2)
  then have dw: "dropWhile (\<lambda>c. c \<noteq> CHR ''.'') (rev b @ CHR ''.'' # rev a) = CHR ''.'' # rev a"
    by simp
  have "takeWhile (\<lambda>c. c \<noteq> CHR ''.'') (a @ CHR ''.'' # b) =
        a @ takeWhile (\<lambda>c. c \<noteq> CHR ''.'') (CHR ''.'' # b)"
    using pa by (rule takeWhile_append2)
  then have tw: "takeWhile (\<lambda>c. c \<noteq> CHR ''.'') (a @ CHR ''.'' # b) = a"
    by simp
  from dw tw True s show ?thesis
    by (simp add: base_name_without_extension_def)
qed

lemma download_file_name_one_dot:
  "count_list file_name (CHR ''.'') \<le> 1 \<Longrightarrow>
   download_file_name file_name f = ''converted_'' @ base_name_without_extension file_name @ ext f"
  by (simp add: download_file_name_def hd_py_split base_name_one_dot)

text \<open>
  Claim C8 at the name \<^verbatim>\<open>my.data.csv\<close>: the code cuts the name at its first dot, the
  base name without its extension ends at the last dot.
\<close>

theorem download_file_name_first_dot:
  "download_file_name ''my.data.csv'' CSV = ''converted_my.csv'' \<and>
   ''converted_'' @ base_name_without_extension ''my.data.csv'' @ ext CSV =
     ''converted_my.data.csv'' \<and>
   download_file_name ''my.data.csv'' CSV \<noteq>
     ''converted_'' @ base_name_without_extension ''my.data.csv'' @ ext CSV"
  by (simp add: download_file_name_def base_name_without_extension_def ext_def)

end
